theory Spec2Isabelle
  imports Complex_Main "HOL-Library.Sublist" "HOL-Library.AList"
    "HOL-Library.List_Lexorder" "HOL-Library.Char_ord"
begin

section \<open>Python strings\<close>

text \<open>
  Strings are ASCII texts, a \<^typ>\<open>char list\<close>. The functions of this section model the
  methods of Python's \<^verbatim>\<open>str\<close> that the ranking engine calls: \<^verbatim>\<open>lower()\<close>,
  \<^verbatim>\<open>strip()\<close>, \<^verbatim>\<open>split()\<close>, \<^verbatim>\<open>split(";")\<close> and the substring test
  \<^verbatim>\<open>a in b\<close>, which is \<^const>\<open>sublist\<close>. Python compares strings lexicographically by code
  point, which is the order of \<^typ>\<open>char list\<close> here.
\<close>

definition py_isspace :: "char \<Rightarrow> bool" where
  "py_isspace c = (let n = (of_char c :: nat) in (9 \<le> n \<and> n \<le> 13) \<or> (28 \<le> n \<and> n \<le> 32))"

definition py_lower_char :: "char \<Rightarrow> char" where
  "py_lower_char c =
     (case map_of (zip ''ABCDEFGHIJKLMNOPQRSTUVWXYZ'' ''abcdefghijklmnopqrstuvwxyz'') c of
        Some d \<Rightarrow> d
      | None \<Rightarrow> c)"

definition py_lower :: "string \<Rightarrow> string" where
  "py_lower s = map py_lower_char s"

definition py_strip :: "string \<Rightarrow> string" where
  "py_strip s = rev (dropWhile py_isspace (rev (dropWhile py_isspace s)))"

text \<open>\<^verbatim>\<open>s.split(sep)\<close> for a separator of one character: every occurrence of the separator
  ends a token, empty tokens are kept, and the empty string gives one empty token.\<close>

fun split_on :: "char \<Rightarrow> string \<Rightarrow> string \<Rightarrow> string list" where
  "split_on sep cur [] = [cur]"
| "split_on sep cur (c # cs) =
     (if c = sep then cur # split_on sep [] cs else split_on sep (cur @ [c]) cs)"

definition py_split :: "char \<Rightarrow> string \<Rightarrow> string list" where
  "py_split sep s = split_on sep [] s"

text \<open>\<^verbatim>\<open>s.split()\<close>: the maximal runs of characters that are not whitespace.\<close>

fun split_ws :: "string \<Rightarrow> string \<Rightarrow> string list" where
  "split_ws cur [] = (if cur = [] then [] else [cur])"
| "split_ws cur (c # cs) =
     (if py_isspace c then (if cur = [] then split_ws [] cs else cur # split_ws [] cs)
      else split_ws (cur @ [c]) cs)"

definition py_split_ws :: "string \<Rightarrow> string list" where
  "py_split_ws s = split_ws [] s"

section \<open>The data the engine reads\<close>

text \<open>
  The floating-point numbers of the source (scores, weights, ratios) are real numbers
  here; integers are unbounded, as Python's are.
\<close>

text \<open>
  A row of the users table and a row of an asset table (events, jobs or posts), with the
  columns the engine reads. \<open>uid\<close> is the column \<^verbatim>\<open>user_id\<close> and \<open>u_city\<close> the users'
  column \<^verbatim>\<open>city\<close>; \<open>row_id\<close> is the id column of the asset table (\<^verbatim>\<open>event_id\<close>,
  \<^verbatim>\<open>job_id\<close> or \<^verbatim>\<open>post_id\<close>). The loader adds every required column, so
  \<^verbatim>\<open>row.get(col, "")\<close> is the field.
\<close>

record user_row =
  uid :: string
  u_city :: string
  interests :: string

record asset_row =
  row_id :: string
  category :: string
  city :: string
  tags :: string
  description :: string

text \<open>A recommendation, a dictionary with the five keys the engine writes; every
  recommendation has a reason, so \<^verbatim>\<open>rec.get("reason", "")\<close> is the field.\<close>

record recommendation =
  user_id :: string
  asset_id :: string
  asset_type :: string
  score :: real
  reason :: string

datatype py_error = KeyError | IndexError | ValueError

section \<open>The popularity score\<close>

text \<open>The loop body of \<^verbatim>\<open>_compute_popularity_score\<close>: the raw score of one row.\<close>

definition raw_score :: "asset_row \<Rightarrow> real" where
  "raw_score row =
     (let tgs = tags row;
          base = max 1 (length (filter (\<lambda>t. py_strip t \<noteq> []) (py_split CHR '';'' tgs)));
          desc_len = length (description row)
      in real base + real desc_len / 1000)"

text \<open>The dictionary \<^verbatim>\<open>scores\<close> keeps its keys in insertion order; storing under a key
  that is present replaces the value in place.\<close>

fun collect_scores :: "asset_row list \<Rightarrow> (string \<times> real) list \<Rightarrow> (string \<times> real) list" where
  "collect_scores [] scores = scores"
| "collect_scores (row # rows) scores =
     collect_scores rows (AList.update (row_id row) (raw_score row) scores)"

definition compute_popularity_score :: "asset_row list \<Rightarrow> (string \<times> real) list" where
  "compute_popularity_score df =
     (let scores = collect_scores df [];
          vals = map snd scores
      in if vals = [] then []
         else let vmin = Min (set vals);
                  vmax = Max (set vals);
                  vals' = (if vmax > vmin then map (\<lambda>v. (v - vmin) / (vmax - vmin)) vals else vals)
              in zip (map fst scores) vals')"

section \<open>The boosts\<close>

text \<open>
  The three tests of the boost loop of \<^verbatim>\<open>recommend_for_user\<close>, on the lower-cased
  attributes. A Python string is true when it is not empty.
\<close>

definition city_test :: "string \<Rightarrow> string \<Rightarrow> bool" where
  "city_test user_city cty = (user_city \<noteq> [] \<and> user_city = cty)"

definition category_test :: "string \<Rightarrow> string \<Rightarrow> bool" where
  "category_test user_interests cat =
     list_ex (\<lambda>k. k \<noteq> []) (filter (\<lambda>k. sublist k user_interests) (py_split_ws cat))"

definition tag_test :: "string \<Rightarrow> string \<Rightarrow> bool" where
  "tag_test user_interests tgs =
     list_ex (\<lambda>t. sublist (py_strip t) user_interests) (py_split CHR '';'' tgs)"

text \<open>One pass of the loop body: the entry of \<^verbatim>\<open>boosts\<close> starts at zero and each test
  that holds adds its constant.\<close>

definition boost_value :: "string \<Rightarrow> string \<Rightarrow> asset_row \<Rightarrow> real" where
  "boost_value user_city user_interests row =
     (let cat = py_lower (category row);
          cty = py_lower (city row);
          tgs = py_lower (tags row);
          b0 = 0;
          b1 = (if city_test user_city cty then b0 + 0.1 else b0);
          b2 = (if category_test user_interests cat then b1 + 0.05 else b1);
          b3 = (if tag_test user_interests tgs then b2 + 0.03 else b2)
      in b3)"

section \<open>Embeddings\<close>

text \<open>
  A row of a TF-IDF matrix is the list of its weights. \<open>nnz\<close> is the attribute of the
  sparse row that the cold-start test reads: the number of stored entries, which for the
  rows the embedding builder makes are the weights that are not zero.
\<close>

type_synonym vec = "real list"

definition nnz :: "vec \<Rightarrow> nat" where
  "nnz v = length (filter (\<lambda>x. x \<noteq> 0) v)"

definition dot :: "vec \<Rightarrow> vec \<Rightarrow> real" where
  "dot x y = sum_list (map2 (*) x y)"

text \<open>The library's L2 normalisation of a row: a row of norm zero is left as it is.\<close>

definition normalize_l2 :: "vec \<Rightarrow> vec" where
  "normalize_l2 v =
     (let n = sqrt (dot v v);
          n' = (if n = 0 then 1 else n)
      in map (\<lambda>x. x / n') v)"

text \<open>
  The library function \<^verbatim>\<open>cosine_similarity(X, Y)\<close> for one row \<open>x\<close>: both sides are
  normalised and multiplied. It raises \<^verbatim>\<open>ValueError\<close> when \<open>Y\<close> has no row, when there
  is no feature, and when the dimensions differ.
\<close>

definition cosine :: "vec \<Rightarrow> vec \<Rightarrow> real" where
  "cosine x y = dot (normalize_l2 x) (normalize_l2 y)"

definition cosine_similarity :: "vec \<Rightarrow> vec list \<Rightarrow> py_error + real list" where
  "cosine_similarity x Y =
     (if Y = [] \<or> x = [] \<or> list_ex (\<lambda>y. length y \<noteq> length x) Y then Inl ValueError
      else Inr (map (\<lambda>y. cosine x y) Y))"

text \<open>
  The embedding space of one entity type: in the source a list \<^verbatim>\<open>ids\<close> and a matrix
  \<^verbatim>\<open>vectors\<close> with one row for each id in the same order, both made from one series of
  texts; here the list of the pairs.
\<close>

type_synonym embedding = "(string \<times> vec) list"

record embeddings =
  emb_users :: embedding
  emb_events :: embedding
  emb_jobs :: embedding
  emb_posts :: embedding

record datasets =
  users :: "user_row list"
  events :: "asset_row list"
  jobs :: "asset_row list"
  posts :: "asset_row list"

text \<open>The asset types are the keys \<^verbatim>\<open>"events"\<close>, \<^verbatim>\<open>"jobs"\<close> and \<^verbatim>\<open>"posts"\<close>.\<close>

datatype asset_kind = Events | Jobs | Posts

fun kind_name :: "asset_kind \<Rightarrow> string" where
  "kind_name Events = ''events''"
| "kind_name Jobs = ''jobs''"
| "kind_name Posts = ''posts''"

fun emb_of :: "embeddings \<Rightarrow> asset_kind \<Rightarrow> embedding" where
  "emb_of e Events = emb_events e"
| "emb_of e Jobs = emb_jobs e"
| "emb_of e Posts = emb_posts e"

fun rows_of :: "datasets \<Rightarrow> asset_kind \<Rightarrow> asset_row list" where
  "rows_of d Events = events d"
| "rows_of d Jobs = jobs d"
| "rows_of d Posts = posts d"

section \<open>The recommender\<close>

record recommender =
  r_embeddings :: embeddings
  r_datasets :: datasets
  popularity :: "asset_kind \<Rightarrow> (string \<times> real) list"

definition Recommender_init :: "embeddings \<Rightarrow> datasets \<Rightarrow> recommender" where
  "Recommender_init emb ds =
     \<lparr>r_embeddings = emb, r_datasets = ds,
      popularity = (\<lambda>k. compute_popularity_score (rows_of ds k))\<rparr>"

text \<open>\<^verbatim>\<open>d.get(k, 0.0)\<close> on a dictionary of scores.\<close>

definition get_or_zero :: "(string \<times> real) list \<Rightarrow> string \<Rightarrow> real" where
  "get_or_zero d k = (case map_of d k of Some v \<Rightarrow> v | None \<Rightarrow> 0)"

text \<open>The base scores and the reason: the popularity of each candidate for a user whose
  vector stores nothing, the cosine similarities otherwise.\<close>

definition base_scores ::
  "recommender \<Rightarrow> asset_kind \<Rightarrow> vec \<Rightarrow> string list \<Rightarrow> vec list \<Rightarrow> py_error + (real list \<times> string)" where
  "base_scores self kind user_vec entity_ids entity_matrix =
     (if nnz user_vec = 0
      then Inr (map (\<lambda>eid. get_or_zero (popularity self kind) eid) entity_ids, ''popularity fallback'')
      else (case cosine_similarity user_vec entity_matrix of
              Inl e \<Rightarrow> Inl e
            | Inr sim \<Rightarrow> Inr (sim, ''text-based similarity'')))"

text \<open>\<^verbatim>\<open>df.query("id == @eid").iloc[0]\<close>: the first row with that id, \<^verbatim>\<open>IndexError\<close>
  when there is none.\<close>

definition first_row :: "('a \<Rightarrow> string) \<Rightarrow> 'a list \<Rightarrow> string \<Rightarrow> py_error + 'a" where
  "first_row idcol df k = (case find (\<lambda>r. idcol r = k) df of None \<Rightarrow> Inl IndexError | Some r \<Rightarrow> Inr r)"

text \<open>The boost loop over the candidates.\<close>

fun compute_boosts :: "asset_row list \<Rightarrow> string \<Rightarrow> string \<Rightarrow> string list \<Rightarrow> py_error + real list" where
  "compute_boosts df user_city user_interests [] = Inr []"
| "compute_boosts df user_city user_interests (eid # eids) =
     (case first_row row_id df eid of
        Inl e \<Rightarrow> Inl e
      | Inr row \<Rightarrow>
          (case compute_boosts df user_city user_interests eids of
             Inl e \<Rightarrow> Inl e
           | Inr bs \<Rightarrow> Inr (boost_value user_city user_interests row # bs)))"

text \<open>
  \<^verbatim>\<open>np.argsort(keys)\<close>: the indices in ascending order of their keys. Equal keys keep
  the order of their indices here, as the library's insertion sort of short arrays leaves
  them; the library promises no order among equal keys.
\<close>

definition argsort :: "real list \<Rightarrow> nat list" where
  "argsort keys = sort_key (\<lambda>i. keys ! i) [0..<length keys]"

text \<open>The slice \<^verbatim>\<open>xs[:n]\<close>: a negative \<open>n\<close> counts from the end.\<close>

definition slice_to :: "'a list \<Rightarrow> int \<Rightarrow> 'a list" where
  "slice_to xs n = (if 0 \<le> n then take (nat n) xs else take (nat (int (length xs) + n)) xs)"

definition recommend_for_user ::
  "recommender \<Rightarrow> string \<Rightarrow> asset_kind \<Rightarrow> int \<Rightarrow> py_error + recommendation list" where
  "recommend_for_user self uid' kind top_n =
     (case map_of (emb_users (r_embeddings self)) uid' of
        None \<Rightarrow> Inl KeyError
      | Some user_vec \<Rightarrow>
          let entity_matrix = map snd (emb_of (r_embeddings self) kind);
              entity_ids = map fst (emb_of (r_embeddings self) kind)
          in (case base_scores self kind user_vec entity_ids entity_matrix of
                Inl e \<Rightarrow> Inl e
              | Inr (scores, rsn) \<Rightarrow>
                  (case first_row uid (users (r_datasets self)) uid' of
                     Inl e \<Rightarrow> Inl e
                   | Inr urow \<Rightarrow>
                       let user_city = py_lower (u_city urow);
                           user_interests = py_lower (interests urow)
                       in (case compute_boosts (rows_of (r_datasets self) kind)
                                  user_city user_interests entity_ids of
                             Inl e \<Rightarrow> Inl e
                           | Inr boosts \<Rightarrow>
                               let final_scores = map2 (+) scores boosts;
                                   order = argsort (map uminus final_scores)
                               in Inr (map (\<lambda>idx.
                                          \<lparr>user_id = uid',
                                           asset_id = entity_ids ! idx,
                                           asset_type = butlast (kind_name kind),
                                           score = final_scores ! idx,
                                           reason = rsn\<rparr>)
                                        (slice_to order top_n))))))"

section \<open>The active learner\<close>

text \<open>A feedback entry is the tuple \<^verbatim>\<open>(user_id, asset_type, asset_id, feedback)\<close> with
  feedback \<open>1\<close> for a like and \<open>-1\<close> for a dislike.\<close>

type_synonym fb_key = "string \<times> string \<times> string"
type_synonym feedback_entry = "string \<times> string \<times> string \<times> int"

record ActiveLearner =
  positive_weight :: real
  negative_weight :: real
  feedback :: "feedback_entry list"

definition ActiveLearner_init :: "real \<Rightarrow> real \<Rightarrow> ActiveLearner" where
  "ActiveLearner_init pw nw = \<lparr>positive_weight = pw, negative_weight = nw, feedback = []\<rparr>"

definition rec_key :: "recommendation \<Rightarrow> fb_key" where
  "rec_key r = (user_id r, asset_type r, asset_id r)"

definition fb_key_of :: "feedback_entry \<Rightarrow> fb_key" where
  "fb_key_of e = (case e of (u, atype, aid, f) \<Rightarrow> (u, atype, aid))"

definition signal :: "feedback_entry \<Rightarrow> int" where
  "signal e = (case e of (u, atype, aid, f) \<Rightarrow> f)"

text \<open>
  The loop of \<^verbatim>\<open>simulate_feedback\<close>. The draws of \<^verbatim>\<open>random.random()\<close> are an input:
  \<open>rnd k\<close> is the draw for the recommendation at position \<open>k\<close>.
\<close>

fun simulate_loop ::
  "(nat \<Rightarrow> real) \<Rightarrow> nat \<Rightarrow> real \<Rightarrow> real \<Rightarrow> recommendation list \<Rightarrow> feedback_entry list
     \<Rightarrow> feedback_entry list" where
  "simulate_loop rnd k positive_ratio negative_ratio [] feedback_entries = feedback_entries"
| "simulate_loop rnd k positive_ratio negative_ratio (r # recs) feedback_entries =
     (let x = rnd k in
      if x < negative_ratio
      then simulate_loop rnd (Suc k) positive_ratio negative_ratio recs
             (feedback_entries @ [(user_id r, asset_type r, asset_id r, -1)])
      else if x < negative_ratio + positive_ratio
      then simulate_loop rnd (Suc k) positive_ratio negative_ratio recs
             (feedback_entries @ [(user_id r, asset_type r, asset_id r, 1)])
      else simulate_loop rnd (Suc k) positive_ratio negative_ratio recs feedback_entries)"

text \<open>The call returns the entries and leaves them appended to the learner's history.\<close>

definition simulate_feedback ::
  "ActiveLearner \<Rightarrow> (nat \<Rightarrow> real) \<Rightarrow> recommendation list \<Rightarrow> real \<Rightarrow> real
     \<Rightarrow> feedback_entry list \<times> ActiveLearner" where
  "simulate_feedback self rnd recommendations positive_ratio negative_ratio =
     (let feedback_entries = simulate_loop rnd 0 positive_ratio negative_ratio recommendations []
      in (feedback_entries, self\<lparr>feedback := feedback self @ feedback_entries\<rparr>))"

text \<open>The lookup table of \<^verbatim>\<open>apply_feedback\<close>: \<^verbatim>\<open>setdefault(key, 0)\<close>, then the
  feedback is added.\<close>

fun build_fb_map :: "feedback_entry list \<Rightarrow> (fb_key \<rightharpoonup> int) \<Rightarrow> (fb_key \<rightharpoonup> int)" where
  "build_fb_map [] fb_map = fb_map"
| "build_fb_map (e # es) fb_map =
     (let key = fb_key_of e;
          m = (case fb_map key of None \<Rightarrow> fb_map(key \<mapsto> 0) | Some _ \<Rightarrow> fb_map)
      in build_fb_map es (m(key \<mapsto> (case m key of Some v \<Rightarrow> v | None \<Rightarrow> 0) + signal e)))"

definition adjust_positive :: "ActiveLearner \<Rightarrow> recommendation \<Rightarrow> recommendation" where
  "adjust_positive self r =
     r\<lparr>score := score r + positive_weight self,
       reason := reason r @ ''; feedback adjusted (positive)''\<rparr>"

definition adjust_negative :: "ActiveLearner \<Rightarrow> recommendation \<Rightarrow> recommendation" where
  "adjust_negative self r =
     r\<lparr>score := max 0 (score r + negative_weight self),
       reason := reason r @ ''; feedback adjusted (negative)''\<rparr>"

text \<open>The second loop of \<^verbatim>\<open>apply_feedback\<close>, on the values of the recommendations.\<close>

fun adjust_loop ::
  "ActiveLearner \<Rightarrow> (fb_key \<rightharpoonup> int) \<Rightarrow> recommendation list \<Rightarrow> recommendation list
     \<Rightarrow> recommendation list" where
  "adjust_loop self fb_map [] adjusted = adjusted"
| "adjust_loop self fb_map (r # recs) adjusted =
     (case fb_map (rec_key r) of
        Some s \<Rightarrow>
          if s > 0 then adjust_loop self fb_map recs (adjusted @ [adjust_positive self r])
          else adjust_loop self fb_map recs (adjusted @ [adjust_negative self r])
      | None \<Rightarrow> adjust_loop self fb_map recs (adjusted @ [r]))"

definition apply_feedback ::
  "ActiveLearner \<Rightarrow> recommendation list \<Rightarrow> feedback_entry list \<Rightarrow> recommendation list" where
  "apply_feedback self recs feedback_entries =
     adjust_loop self (build_fb_map feedback_entries Map.empty) recs []"

subsection \<open>The same call on a store of objects\<close>

text \<open>
  A recommendation is a dictionary object. To speak of what the call mutates, the objects
  live in a store, a list whose positions are the references; \<^verbatim>\<open>rec.copy()\<close> allocates
  the next position, and the two assignments write to the copy.
\<close>

type_synonym ref = nat
type_synonym store = "recommendation list"

definition copy_rec :: "store \<Rightarrow> ref \<Rightarrow> store \<times> ref" where
  "copy_rec h a = (h @ [h ! a], length h)"

definition set_score :: "store \<Rightarrow> ref \<Rightarrow> real \<Rightarrow> store" where
  "set_score h a v = h[a := (h ! a)\<lparr>score := v\<rparr>]"

definition set_reason :: "store \<Rightarrow> ref \<Rightarrow> string \<Rightarrow> store" where
  "set_reason h a v = h[a := (h ! a)\<lparr>reason := v\<rparr>]"

fun adjust_loop_refs ::
  "ActiveLearner \<Rightarrow> (fb_key \<rightharpoonup> int) \<Rightarrow> store \<Rightarrow> ref list \<Rightarrow> ref list \<Rightarrow> store \<times> ref list" where
  "adjust_loop_refs self fb_map h [] adjusted = (h, adjusted)"
| "adjust_loop_refs self fb_map h (a # recs) adjusted =
     (case fb_map (rec_key (h ! a)) of
        Some s \<Rightarrow>
          if s > 0 then
            (let (h1, a') = copy_rec h a;
                 h2 = set_score h1 a' (score (h1 ! a') + positive_weight self);
                 h3 = set_reason h2 a' (reason (h2 ! a') @ ''; feedback adjusted (positive)'')
             in adjust_loop_refs self fb_map h3 recs (adjusted @ [a']))
          else
            (let (h1, a') = copy_rec h a;
                 h2 = set_score h1 a' (max 0 (score (h1 ! a') + negative_weight self));
                 h3 = set_reason h2 a' (reason (h2 ! a') @ ''; feedback adjusted (negative)'')
             in adjust_loop_refs self fb_map h3 recs (adjusted @ [a']))
      | None \<Rightarrow> adjust_loop_refs self fb_map h recs (adjusted @ [a]))"

definition apply_feedback_refs ::
  "ActiveLearner \<Rightarrow> store \<Rightarrow> ref list \<Rightarrow> feedback_entry list \<Rightarrow> store \<times> ref list" where
  "apply_feedback_refs self h recs feedback_entries =
     adjust_loop_refs self (build_fb_map feedback_entries Map.empty) h recs []"

section \<open>The specification's wording\<close>

text \<open>The bounds the specification puts on the two feedback ratios.\<close>

definition ratios_in_bounds :: "real \<Rightarrow> real \<Rightarrow> bool" where
  "ratios_in_bounds positive_ratio negative_ratio =
     (0 \<le> positive_ratio \<and> positive_ratio \<le> 1 \<and> 0 \<le> negative_ratio \<and> negative_ratio \<le> 1
      \<and> positive_ratio + negative_ratio \<le> 1)"

text \<open>The raw popularity as the specification words it: the tokens counted are the
  ones that are not empty.\<close>

definition claimed_raw_score :: "asset_row \<Rightarrow> real" where
  "claimed_raw_score row =
     real (max 1 (length (filter (\<lambda>t. t \<noteq> []) (py_split CHR '';'' (tags row)))))
     + real (length (description row)) / 1000"

text \<open>The boost as the specification words it, on the lower-cased attributes: the city
  rule is the equality of the two cities.\<close>

definition claimed_boost :: "string \<Rightarrow> string \<Rightarrow> asset_row \<Rightarrow> real" where
  "claimed_boost user_city user_interests row =
     (if user_city = py_lower (city row) then 0.1 else 0)
     + (if list_ex (\<lambda>k. sublist k user_interests) (py_split_ws (py_lower (category row)))
        then 0.05 else 0)
     + (if list_ex (\<lambda>t. sublist (py_strip t) user_interests)
             (py_split CHR '';'' (py_lower (tags row)))
        then 0.03 else 0)"

section \<open>Example data\<close>

definition learner0 :: ActiveLearner where
  "learner0 = ActiveLearner_init 0.2 (-0.25)"

definition rec0 :: recommendation where
  "rec0 = \<lparr>user_id = ''u1'', asset_id = ''e1'', asset_type = ''event'', score = 0.5,
           reason = ''text-based similarity''\<rparr>"

definition store0 :: store where
  "store0 = [rec0, rec0\<lparr>asset_id := ''e2''\<rparr>]"

definition row_empty_tags :: asset_row where
  "row_empty_tags =
     \<lparr>row_id = ''e1'', category = ''Music'', city = [], tags = [], description = ''d''\<rparr>"

definition row_blank_tag :: asset_row where
  "row_blank_tag =
     \<lparr>row_id = ''e1'', category = ''Music'', city = ''Paris'', tags = ''a; '', description = ''d''\<rparr>"

definition row_no_city :: asset_row where
  "row_no_city =
     \<lparr>row_id = ''e1'', category = ''Music'', city = [], tags = ''x'', description = ''d''\<rparr>"

definition urow_no_city :: user_row where
  "urow_no_city = \<lparr>uid = ''u2'', u_city = [], interests = ''Tech''\<rparr>"

text \<open>A pool of three events, two of them alike, and two users: \<open>u1\<close> with a profile
  and \<open>u2\<close> with none.\<close>

definition row_c :: asset_row where
  "row_c = \<lparr>row_id = ''c'', category = ''Music'', city = ''Paris'', tags = ''x'', description = ''d''\<rparr>"

definition row_b :: asset_row where
  "row_b = \<lparr>row_id = ''b'', category = ''Tech Talk'', city = ''Berlin'', tags = ''AI; ml'',
            description = ''d''\<rparr>"

definition row_a :: asset_row where
  "row_a = \<lparr>row_id = ''a'', category = ''Tech Talk'', city = ''Berlin'', tags = ''AI; ml'',
            description = ''d''\<rparr>"

definition urow1 :: user_row where
  "urow1 = \<lparr>uid = ''u1'', u_city = ''Berlin'', interests = ''Tech AI''\<rparr>"

definition urow2 :: user_row where
  "urow2 = \<lparr>uid = ''u2'', u_city = [], interests = []\<rparr>"

definition ds0 :: datasets where
  "ds0 = \<lparr>users = [urow1, urow2], events = [row_c, row_b, row_a], jobs = [], posts = []\<rparr>"

definition emb0 :: embeddings where
  "emb0 = \<lparr>emb_users = [(''u1'', [1, 0]), (''u2'', [0, 0])],
           emb_events = [(''c'', [0, 1]), (''b'', [1, 0]), (''a'', [1, 0])],
           emb_jobs = [], emb_posts = []\<rparr>"

text \<open>The same space with the two alike events in the other order.\<close>

definition emb0_swapped :: embeddings where
  "emb0_swapped = emb0\<lparr>emb_events := [(''c'', [0, 1]), (''a'', [1, 0]), (''b'', [1, 0])]\<rparr>"

definition rec_of :: "string \<Rightarrow> string \<Rightarrow> real \<Rightarrow> string \<Rightarrow> recommendation" where
  "rec_of u a s rsn =
     \<lparr>user_id = u, asset_id = a, asset_type = ''event'', score = s, reason = rsn\<rparr>"

section \<open>Strings and boosts\<close>

lemma split_ws_nonempty: "t \<in> set (split_ws cur s) \<Longrightarrow> t \<noteq> []"
  by (induction cur s rule: split_ws.induct) (auto split: if_splits)

lemma category_test_iff:
  "category_test ui cat = list_ex (\<lambda>k. sublist k ui) (py_split_ws cat)"
  by (auto simp: category_test_def py_split_ws_def list_ex_iff dest: split_ws_nonempty)

lemma boost_value_sum:
  "boost_value uc ui row =
     (if city_test uc (py_lower (city row)) then 0.1 else 0)
     + (if category_test ui (py_lower (category row)) then 0.05 else 0)
     + (if tag_test ui (py_lower (tags row)) then 0.03 else 0)"
  by (simp add: boost_value_def Let_def)

text \<open>
  Claim C9. A candidate whose \<^verbatim>\<open>tags\<close> attribute is the empty string passes the tag test
  for every user and every interests string, since splitting the empty string gives one
  empty token and the empty token occurs in every string: its boost always contains the
  0.03 of the tag rule.
\<close>

theorem empty_tags_always_boosted:
  "tags row = [] \<Longrightarrow>
     py_split CHR '';'' (py_lower (tags row)) = [[]] \<and>
     sublist (py_strip []) user_interests \<and>
     tag_test user_interests (py_lower (tags row)) \<and>
     boost_value user_city user_interests row =
       (if city_test user_city (py_lower (city row)) then 0.1 else 0)
       + (if category_test user_interests (py_lower (category row)) then 0.05 else 0)
       + 0.03"
  by (simp add: boost_value_sum tag_test_def py_split_def py_lower_def py_strip_def)

theorem empty_tags_always_boosted_witness:
  "tags row_empty_tags = [] \<and> boost_value ''berlin'' [] row_empty_tags = 0.03"
proof -
  have h: "tags row_empty_tags = []" by (simp add: row_empty_tags_def)
  have c: "\<not> city_test ''berlin'' (py_lower (city row_empty_tags))"
    by (simp add: city_test_def row_empty_tags_def py_lower_def)
  have k: "\<not> category_test [] (py_lower (category row_empty_tags))"
    by (simp add: category_test_def row_empty_tags_def py_lower_def py_lower_char_def
        py_split_ws_def py_isspace_def)
  show ?thesis
    using empty_tags_always_boosted [OF h, of "[]" "''berlin''"] h c k by simp
qed

text \<open>
  Claim C10. A user whose \<^verbatim>\<open>city\<close> attribute is the empty string fails the city test
  against every candidate city, the empty one included, so the boost of every candidate is
  made of the category and tag rules alone.
\<close>

theorem empty_user_city_no_boost:
  "u_city urow = [] \<Longrightarrow>
     \<not> city_test (py_lower (u_city urow)) cty \<and>
     boost_value (py_lower (u_city urow)) user_interests row =
       (if category_test user_interests (py_lower (category row)) then 0.05 else 0)
       + (if tag_test user_interests (py_lower (tags row)) then 0.03 else 0)"
  by (simp add: boost_value_sum city_test_def py_lower_def)

theorem empty_user_city_no_boost_witness:
  "u_city urow_no_city = [] \<and> py_lower (u_city urow_no_city) = py_lower (city row_empty_tags) \<and>
   boost_value (py_lower (u_city urow_no_city)) (py_lower (interests urow_no_city)) row_empty_tags
     = 0.03"
proof -
  have h: "u_city urow_no_city = []" by (simp add: urow_no_city_def)
  have k: "\<not> category_test (py_lower (interests urow_no_city)) (py_lower (category row_empty_tags))"
    by (simp add: category_test_def row_empty_tags_def urow_no_city_def py_lower_def
        py_lower_char_def py_split_ws_def py_isspace_def sublist_code(3))
  have t: "tag_test (py_lower (interests urow_no_city)) (py_lower (tags row_empty_tags))"
    by (simp add: row_empty_tags_def tag_test_def py_lower_def py_split_def py_strip_def)
  have e: "py_lower (u_city urow_no_city) = py_lower (city row_empty_tags)"
    by (simp add: urow_no_city_def row_empty_tags_def)
  show ?thesis
    using empty_user_city_no_boost
            [OF h, of _ "py_lower (interests urow_no_city)" row_empty_tags] h k t e
    by simp
qed

section \<open>Feedback\<close>

lemma filter_no_match: "\<not> list_ex P xs \<Longrightarrow> filter P xs = []"
  by (induction xs) auto

lemma build_fb_map_lookup:
  "build_fb_map es m k =
     (if list_ex (\<lambda>e. fb_key_of e = k) es
      then Some ((case m k of Some v \<Rightarrow> v | None \<Rightarrow> 0)
                 + sum_list (map signal (filter (\<lambda>e. fb_key_of e = k) es)))
      else m k)"
  by (induction es arbitrary: m) (auto simp: Let_def filter_no_match split: option.splits)

lemma adjust_loop_map:
  "adjust_loop self m recs acc =
     acc @ map (\<lambda>r. case m (rec_key r) of
                      Some s \<Rightarrow> if s > 0 then adjust_positive self r else adjust_negative self r
                    | None \<Rightarrow> r) recs"
  by (induction recs arbitrary: acc) (auto split: option.splits)

lemma simulate_loop_concat:
  "simulate_loop rnd k pos neg recs acc =
     acc @ concat (map (\<lambda>(i, r).
              if rnd i < neg then [(user_id r, asset_type r, asset_id r, -1)]
              else if rnd i < neg + pos then [(user_id r, asset_type r, asset_id r, 1)]
              else []) (enumerate k recs))"
  by (induction recs arbitrary: k acc) (auto simp: Let_def)

text \<open>
  Claim C2, as the code has it. \<^verbatim>\<open>simulate_feedback\<close> checks nothing about its ratios:
  for all values of \<open>positive_ratio\<close> and \<open>negative_ratio\<close> it returns, for each
  recommendation with draw \<open>x\<close>, a dislike when \<open>x < negative_ratio\<close>, else a like when
  \<open>x < negative_ratio + positive_ratio\<close>, else nothing, and appends the entries to the
  learner's history.
\<close>

theorem simulate_feedback_total:
  "simulate_feedback self rnd recs positive_ratio negative_ratio =
     (let entries = concat (map (\<lambda>(i, r).
              if rnd i < negative_ratio then [(user_id r, asset_type r, asset_id r, -1)]
              else if rnd i < negative_ratio + positive_ratio
                   then [(user_id r, asset_type r, asset_id r, 1)]
              else []) (enumerate 0 recs))
      in (entries, self\<lparr>feedback := feedback self @ entries\<rparr>))"
  by (simp add: simulate_feedback_def simulate_loop_concat Let_def)

text \<open>
  Claim C2 as stated fails: with \<open>positive_ratio = 2\<close> and \<open>negative_ratio = -1\<close>, both
  outside the bounds, the call is not rejected; on the draw 0.5 it returns a like.
\<close>

theorem simulate_feedback_accepts_bad_ratios:
  "\<not> ratios_in_bounds 2 (-1) \<and>
   fst (simulate_feedback learner0 (\<lambda>k. 0.5) [rec0] 2 (-1)) = [(''u1'', ''event'', ''e1'', 1)]"
  by (simp add: ratios_in_bounds_def simulate_feedback_def rec0_def Let_def)

text \<open>
  Claim C3. A recommendation whose key has feedback is adjusted by the sign of the summed
  signals: a strictly positive sum adds \<open>positive_weight\<close> to the score and appends
  \<^verbatim>\<open>; feedback adjusted (positive)\<close> to the reason; a sum that is zero or negative sets
  the score to the maximum of 0 and the score plus \<open>negative_weight\<close> and appends
  \<^verbatim>\<open>; feedback adjusted (negative)\<close>.
\<close>

theorem apply_feedback_adjusts:
  assumes "i < length recs"
    and "list_ex (\<lambda>e. fb_key_of e = rec_key (recs ! i)) fb"
  shows "apply_feedback self recs fb ! i =
     (if sum_list (map signal (filter (\<lambda>e. fb_key_of e = rec_key (recs ! i)) fb)) > 0
      then (recs ! i)\<lparr>score := score (recs ! i) + positive_weight self,
                      reason := reason (recs ! i) @ ''; feedback adjusted (positive)''\<rparr>
      else (recs ! i)\<lparr>score := max 0 (score (recs ! i) + negative_weight self),
                      reason := reason (recs ! i) @ ''; feedback adjusted (negative)''\<rparr>)"
  using assms
  by (simp add: apply_feedback_def adjust_loop_map build_fb_map_lookup
      adjust_positive_def adjust_negative_def)

text \<open>The witness is the specification's example: a like and a dislike for one key sum
  to zero, and the negative adjustment is applied.\<close>

theorem apply_feedback_adjusts_witness:
  "(0::nat) < length [rec0] \<and>
   apply_feedback learner0 [rec0]
     [(''u1'', ''event'', ''e1'', 1), (''u1'', ''event'', ''e1'', -1)] ! 0 =
     rec0\<lparr>score := 0.25, reason := ''text-based similarity; feedback adjusted (negative)''\<rparr>"
proof -
  have h1: "0 < length [rec0]" by simp
  have h2: "list_ex (\<lambda>e. fb_key_of e = rec_key ([rec0] ! 0))
              [(''u1'', ''event'', ''e1'', 1), (''u1'', ''event'', ''e1'', -1)]"
    by (simp add: fb_key_of_def rec_key_def rec0_def)
  show ?thesis
    using apply_feedback_adjusts [OF h1 h2, of learner0]
    by (simp add: fb_key_of_def rec_key_def rec0_def signal_def learner0_def
        ActiveLearner_init_def)
qed

text \<open>
  Claim C7. Applying feedback is not idempotent: with the default weights, one like for
  a recommendation of score 0.5 gives 0.7 when applied once and 0.9 when applied twice.
\<close>

theorem apply_feedback_not_idempotent:
  "map score (apply_feedback learner0 [rec0] [(''u1'', ''event'', ''e1'', 1)]) = [0.7] \<and>
   map score (apply_feedback learner0
                (apply_feedback learner0 [rec0] [(''u1'', ''event'', ''e1'', 1)])
                [(''u1'', ''event'', ''e1'', 1)]) = [0.9] \<and>
   apply_feedback learner0
     (apply_feedback learner0 [rec0] [(''u1'', ''event'', ''e1'', 1)])
     [(''u1'', ''event'', ''e1'', 1)]
   \<noteq> apply_feedback learner0 [rec0] [(''u1'', ''event'', ''e1'', 1)]"
  by (simp add: learner0_def rec0_def ActiveLearner_init_def apply_feedback_def rec_key_def
      fb_key_of_def signal_def adjust_positive_def adjust_negative_def)

section \<open>Feedback on a store of objects\<close>

lemma prefix_nth: "prefix xs ys \<Longrightarrow> i < length xs \<Longrightarrow> ys ! i = xs ! i"
  by (auto simp: prefix_def nth_append)

lemma adjust_loop_refs_step:
  "adjust_loop_refs self m h (a # recs) acc =
     (case m (rec_key (h ! a)) of
        Some s \<Rightarrow>
          adjust_loop_refs self m
            (h @ [if s > 0 then adjust_positive self (h ! a) else adjust_negative self (h ! a)])
            recs (acc @ [length h])
      | None \<Rightarrow> adjust_loop_refs self m h recs (acc @ [a]))"
  by (simp add: copy_rec_def set_score_def set_reason_def adjust_positive_def adjust_negative_def
      split: option.splits)

lemma refs_store_grows:
  "adjust_loop_refs self m h recs acc = (h', out) \<Longrightarrow> prefix h h' \<and> prefix acc out"
proof (induction recs arbitrary: h acc)
  case Nil
  then show ?case by simp
next
  case (Cons a recs)
  show ?case
  proof (cases "m (rec_key (h ! a))")
    case None
    with Cons.prems have "adjust_loop_refs self m h recs (acc @ [a]) = (h', out)"
      by (simp add: adjust_loop_refs_step del: adjust_loop_refs.simps)
    from Cons.IH [OF this] show ?thesis
      by (auto dest: append_prefixD)
  next
    case (Some s)
    with Cons.prems obtain x where
      "adjust_loop_refs self m (h @ [x]) recs (acc @ [length h]) = (h', out)"
      by (simp add: adjust_loop_refs_step del: adjust_loop_refs.simps)
    from Cons.IH [OF this] show ?thesis
      by (auto dest: append_prefixD)
  qed
qed

lemma refs_length:
  "adjust_loop_refs self m h recs acc = (h', out) \<Longrightarrow> length out = length acc + length recs"
proof (induction recs arbitrary: h acc)
  case Nil
  then show ?case by simp
next
  case (Cons a recs)
  show ?case
  proof (cases "m (rec_key (h ! a))")
    case None
    with Cons.prems have "adjust_loop_refs self m h recs (acc @ [a]) = (h', out)"
      by (simp add: adjust_loop_refs_step del: adjust_loop_refs.simps)
    from Cons.IH [OF this] show ?thesis by simp
  next
    case (Some s)
    with Cons.prems obtain x where
      "adjust_loop_refs self m (h @ [x]) recs (acc @ [length h]) = (h', out)"
      by (simp add: adjust_loop_refs_step del: adjust_loop_refs.simps)
    from Cons.IH [OF this] show ?thesis by simp
  qed
qed

lemma refs_position:
  "adjust_loop_refs self m h recs acc = (h', out) \<Longrightarrow> \<forall>a\<in>set recs. a < length h \<Longrightarrow>
   i < length recs \<Longrightarrow>
   (if m (rec_key (h ! (recs ! i))) = None then out ! (length acc + i) = recs ! i
    else length h \<le> out ! (length acc + i) \<and> out ! (length acc + i) < length h')"
proof (induction recs arbitrary: h acc i)
  case Nil
  then show ?case by simp
next
  case (Cons a recs)
  show ?case
  proof (cases "m (rec_key (h ! a))")
    case None
    with Cons.prems have run: "adjust_loop_refs self m h recs (acc @ [a]) = (h', out)"
      by (simp add: adjust_loop_refs_step del: adjust_loop_refs.simps)
    show ?thesis
    proof (cases i)
      case 0
      from refs_store_grows [OF run] have "out ! length acc = a"
        using prefix_nth [of "acc @ [a]" out "length acc"] by simp
      with None 0 show ?thesis by simp
    next
      case (Suc j)
      with Cons.prems have j: "j < length recs" by simp
      from Cons.prems have v: "\<forall>a\<in>set recs. a < length h" by simp
      from Cons.IH [OF run v j] Suc show ?thesis by (auto split: if_splits)
    qed
  next
    case (Some s)
    with Cons.prems obtain x where
      run: "adjust_loop_refs self m (h @ [x]) recs (acc @ [length h]) = (h', out)"
      by (simp add: adjust_loop_refs_step del: adjust_loop_refs.simps)
    from refs_store_grows [OF run] have grow: "prefix (h @ [x]) h'"
      and pre: "prefix (acc @ [length h]) out" by simp_all
    from grow have len: "length h < length h'"
      using prefix_length_le by fastforce
    show ?thesis
    proof (cases i)
      case 0
      from pre have "out ! length acc = length h"
        using prefix_nth [of "acc @ [length h]" out "length acc"] by simp
      with Some 0 len show ?thesis by simp
    next
      case (Suc j)
      with Cons.prems have j: "j < length recs" by simp
      from Cons.prems have v: "\<forall>a\<in>set recs. a < length (h @ [x])" by auto
      from Cons.prems j have "recs ! j < length h" by auto
      then have same: "(h @ [x]) ! (recs ! j) = h ! (recs ! j)" by (simp add: nth_append)
      from Cons.IH [OF run v j] Suc same show ?thesis by (auto split: if_splits)
    qed
  qed
qed

lemma refs_values:
  "adjust_loop_refs self m h recs acc = (h', out) \<Longrightarrow> \<forall>a\<in>set recs. a < length h \<Longrightarrow>
   \<forall>a\<in>set acc. a < length h \<Longrightarrow>
   map (\<lambda>a. h' ! a) out = adjust_loop self m (map (\<lambda>a. h ! a) recs) (map (\<lambda>a. h ! a) acc)"
proof (induction recs arbitrary: h acc)
  case Nil
  then have "prefix h h'" and "out = acc" by (auto dest: refs_store_grows)
  with Nil show ?case by (auto simp: prefix_nth)
next
  case (Cons a recs)
  show ?case
  proof (cases "m (rec_key (h ! a))")
    case None
    with Cons.prems have run: "adjust_loop_refs self m h recs (acc @ [a]) = (h', out)"
      by (simp add: adjust_loop_refs_step del: adjust_loop_refs.simps)
    from Cons.prems have "\<forall>a\<in>set recs. a < length h" "\<forall>b\<in>set (acc @ [a]). b < length h"
      by auto
    from Cons.IH [OF run this] None show ?thesis by simp
  next
    case (Some s)
    define x where "x = (if s > 0 then adjust_positive self (h ! a) else adjust_negative self (h ! a))"
    with Some Cons.prems have
      run: "adjust_loop_refs self m (h @ [x]) recs (acc @ [length h]) = (h', out)"
      by (simp add: adjust_loop_refs_step del: adjust_loop_refs.simps)
    from Cons.prems have v: "\<forall>a\<in>set recs. a < length (h @ [x])"
      "\<forall>b\<in>set (acc @ [length h]). b < length (h @ [x])"
      by auto
    from Cons.prems have e1: "map (\<lambda>a. (h @ [x]) ! a) recs = map (\<lambda>a. h ! a) recs"
      by (auto simp: nth_append)
    from Cons.prems have "map (\<lambda>a. (h @ [x]) ! a) acc = map (\<lambda>a. h ! a) acc"
      by (auto simp: nth_append)
    then have e2: "map (\<lambda>a. (h @ [x]) ! a) (acc @ [length h]) = map (\<lambda>a. h ! a) acc @ [x]"
      by simp
    have "map (\<lambda>a. h' ! a) out =
            adjust_loop self m (map (\<lambda>a. h ! a) recs) (map (\<lambda>a. h ! a) acc @ [x])"
      using Cons.IH [OF run v] by (simp only: e1 e2)
    also have "\<dots> = adjust_loop self m (map (\<lambda>a. h ! a) (a # recs)) (map (\<lambda>a. h ! a) acc)"
      using Some by (simp add: x_def)
    finally show ?thesis .
  qed
qed

text \<open>
  Claim C8. The call leaves every object of the store as it was, the recommendations it
  was given included: the store only grows at its end. A recommendation whose key has no
  feedback is in the output as the object it was; an adjusted one is an object the call
  made. The values of the output are the ones \<open>apply_feedback\<close> computes.
\<close>

theorem apply_feedback_refs_frame:
  assumes "\<forall>a\<in>set recs. a < length h"
    and "apply_feedback_refs self h recs fb = (h', out)"
  shows "prefix h h' \<and> (\<forall>a<length h. h' ! a = h ! a) \<and> length out = length recs \<and>
     (\<forall>i<length recs.
        if list_ex (\<lambda>e. fb_key_of e = rec_key (h ! (recs ! i))) fb
        then length h \<le> out ! i \<and> out ! i < length h' else out ! i = recs ! i) \<and>
     map (\<lambda>a. h' ! a) out = apply_feedback self (map (\<lambda>a. h ! a) recs) fb"
proof -
  let ?m = "build_fb_map fb Map.empty"
  from assms(2) have run: "adjust_loop_refs self ?m h recs [] = (h', out)"
    by (simp add: apply_feedback_refs_def)
  have none: "?m k = None \<longleftrightarrow> \<not> list_ex (\<lambda>e. fb_key_of e = k) fb" for k
    by (simp add: build_fb_map_lookup)
  from refs_store_grows [OF run] have p: "prefix h h'" by simp
  then have same: "\<forall>a<length h. h' ! a = h ! a" by (simp add: prefix_nth)
  from refs_length [OF run] have len: "length out = length recs" by simp
  have pos: "\<forall>i<length recs.
        if list_ex (\<lambda>e. fb_key_of e = rec_key (h ! (recs ! i))) fb
        then length h \<le> out ! i \<and> out ! i < length h' else out ! i = recs ! i"
  proof (intro allI impI)
    fix i assume "i < length recs"
    from refs_position [OF run assms(1) this] show
      "if list_ex (\<lambda>e. fb_key_of e = rec_key (h ! (recs ! i))) fb
        then length h \<le> out ! i \<and> out ! i < length h' else out ! i = recs ! i"
      by (simp add: none split: if_splits)
  qed
  from refs_values [OF run assms(1)] have
    "map (\<lambda>a. h' ! a) out = apply_feedback self (map (\<lambda>a. h ! a) recs) fb"
    by (simp add: apply_feedback_def)
  with p same len pos show ?thesis by blast
qed

theorem apply_feedback_refs_frame_witness:
  "apply_feedback_refs learner0 store0 [0, 1] [(''u1'', ''event'', ''e1'', 1)] =
     (store0 @ [rec0\<lparr>score := 0.7, reason := ''text-based similarity; feedback adjusted (positive)''\<rparr>],
      [2, 1]) \<and>
   apply_feedback learner0 store0 [(''u1'', ''event'', ''e1'', 1)] =
     [rec0\<lparr>score := 0.7, reason := ''text-based similarity; feedback adjusted (positive)''\<rparr>,
      rec0\<lparr>asset_id := ''e2''\<rparr>]"
proof -
  let ?new = "rec0\<lparr>score := 0.7, reason := ''text-based similarity; feedback adjusted (positive)''\<rparr>"
  have valid: "\<forall>a\<in>set [0, 1]. a < length store0"
    by (simp add: store0_def)
  have run: "apply_feedback_refs learner0 store0 [0, 1] [(''u1'', ''event'', ''e1'', 1)] =
     (store0 @ [?new], [2, 1])"
    by (simp add: apply_feedback_refs_def store0_def rec0_def learner0_def ActiveLearner_init_def
        rec_key_def fb_key_of_def signal_def copy_rec_def set_score_def set_reason_def)
  have "map (\<lambda>a. (store0 @ [?new]) ! a) [2, 1] =
          apply_feedback learner0 (map (\<lambda>a. store0 ! a) [0, 1]) [(''u1'', ''event'', ''e1'', 1)]"
    using apply_feedback_refs_frame [OF valid run] by blast
  then have "apply_feedback learner0 store0 [(''u1'', ''event'', ''e1'', 1)] =
     [?new, rec0\<lparr>asset_id := ''e2''\<rparr>]"
    by (simp add: store0_def)
  with run show ?thesis by simp
qed

section \<open>Popularity\<close>

lemma update_fresh: "k \<notin> fst ` set al \<Longrightarrow> AList.update k v al = al @ [(k, v)]"
  by (induction al) auto

lemma collect_scores_distinct:
  "distinct (map row_id df) \<Longrightarrow> fst ` set acc \<inter> row_id ` set df = {} \<Longrightarrow>
   collect_scores df acc = acc @ map (\<lambda>r. (row_id r, raw_score r)) df"
proof (induction df arbitrary: acc)
  case Nil
  then show ?case by simp
next
  case (Cons r df)
  from Cons.prems have fresh: "row_id r \<notin> fst ` set acc" by auto
  from Cons.prems have "distinct (map row_id df)"
    and "fst ` set (acc @ [(row_id r, raw_score r)]) \<inter> row_id ` set df = {}"
    by auto
  from Cons.IH [OF this] fresh show ?case
    by (simp add: update_fresh)
qed

lemma collect_scores_keys:
  "fst ` set (collect_scores df acc) = fst ` set acc \<union> row_id ` set df"
  by (induction df arbitrary: acc) (auto simp: dom_update)

lemma popularity_keys:
  "fst ` set (compute_popularity_score df) = row_id ` set df"
proof (cases "collect_scores df [] = []")
  case True
  with collect_scores_keys [of df "[]"] have "row_id ` set df = {}" by simp
  with True show ?thesis by (simp add: compute_popularity_score_def)
next
  case False
  have "map fst (compute_popularity_score df) = map fst (collect_scores df [])"
    using False by (simp add: compute_popularity_score_def Let_def)
  then have "fst ` set (compute_popularity_score df) = fst ` set (collect_scores df [])"
    by (metis set_map)
  then show ?thesis by (simp add: collect_scores_keys)
qed

lemma popularity_distinct:
  assumes "distinct (map row_id df)"
  shows "compute_popularity_score df =
     (let vals = map raw_score df; vmin = Min (set vals); vmax = Max (set vals)
      in map (\<lambda>r. (row_id r, if vmax > vmin then (raw_score r - vmin) / (vmax - vmin)
                              else raw_score r)) df)"
proof -
  have sc: "collect_scores df [] = map (\<lambda>r. (row_id r, raw_score r)) df"
    using collect_scores_distinct [OF assms, of "[]"] by simp
  have v: "map snd (collect_scores df []) = map raw_score df"
    and k: "map fst (collect_scores df []) = map row_id df"
    by (simp_all add: sc comp_def)
  show ?thesis
    unfolding compute_popularity_score_def Let_def v k
    by (simp add: zip_map_map zip_same_conv_map comp_def)
qed

lemma rescaled_in_unit:
  fixes x :: real
  assumes "vmin \<le> x" "x \<le> vmax" "vmin < vmax"
  shows "0 \<le> (x - vmin) / (vmax - vmin) \<and> (x - vmin) / (vmax - vmin) \<le> 1"
  using assms by (simp add: field_simps)

text \<open>
  Claim C6, as the code has it. The raw score of an asset is the maximum of 1 and the
  number of \<open>;\<close>-delimited tag tokens that are not empty after trimming, plus a
  thousandth of the length of the description. In a pool with unique ids, when the largest
  raw score exceeds the smallest every score is rescaled by minimum and maximum and lies
  between 0 and 1; otherwise (all assets tie, a pool of one included) the score is the raw
  score.
\<close>

theorem popularity_score_formula:
  assumes "distinct (map row_id df)" and "row \<in> set df"
  shows "raw_score row =
       real (max 1 (length (filter (\<lambda>t. py_strip t \<noteq> []) (py_split CHR '';'' (tags row)))))
       + real (length (description row)) / 1000 \<and>
     (let vmin = Min (raw_score ` set df); vmax = Max (raw_score ` set df)
      in if vmax > vmin
         then map_of (compute_popularity_score df) (row_id row)
                = Some ((raw_score row - vmin) / (vmax - vmin))
              \<and> 0 \<le> (raw_score row - vmin) / (vmax - vmin)
              \<and> (raw_score row - vmin) / (vmax - vmin) \<le> 1
         else map_of (compute_popularity_score df) (row_id row) = Some (raw_score row))"
proof -
  let ?vmin = "Min (raw_score ` set df)" and ?vmax = "Max (raw_score ` set df)"
  let ?g = "\<lambda>r. if ?vmax > ?vmin then (raw_score r - ?vmin) / (?vmax - ?vmin) else raw_score r"
  have raw: "raw_score row =
       real (max 1 (length (filter (\<lambda>t. py_strip t \<noteq> []) (py_split CHR '';'' (tags row)))))
       + real (length (description row)) / 1000"
    by (simp add: raw_score_def Let_def)
  have pop: "compute_popularity_score df = map (\<lambda>r. (row_id r, ?g r)) df"
    using popularity_distinct [OF assms(1)] by (simp add: Let_def)
  have d: "distinct (map fst (map (\<lambda>r. (row_id r, ?g r)) df))"
    using assms(1) by (simp add: comp_def)
  have "(row_id row, ?g row) \<in> set (map (\<lambda>r. (row_id r, ?g r)) df)"
    using assms(2) by auto
  with d have look: "map_of (compute_popularity_score df) (row_id row) = Some (?g row)"
    unfolding pop by (rule map_of_is_SomeI)
  have lo: "?vmin \<le> raw_score row" and hi: "raw_score row \<le> ?vmax"
    using assms(2) by simp_all
  show ?thesis
  proof (cases "?vmax > ?vmin")
    case True
    with rescaled_in_unit [OF lo hi] look raw show ?thesis by (simp add: Let_def)
  next
    case False
    with look raw show ?thesis by (simp add: Let_def)
  qed
qed

theorem popularity_score_formula_witness:
  "distinct (map row_id [row_c, row_b]) \<and>
   map_of (compute_popularity_score [row_c, row_b]) (row_id row_b) = Some 1 \<and>
   map_of (compute_popularity_score [row_b, row_a]) (row_id row_b) = Some 2.001"
proof -
  have d1: "distinct (map row_id [row_c, row_b])" by (simp add: row_c_def row_b_def)
  have d2: "distinct (map row_id [row_b, row_a])" by (simp add: row_a_def row_b_def)
  have m1: "row_b \<in> set [row_c, row_b]" and m2: "row_b \<in> set [row_b, row_a]" by simp_all
  have rb: "raw_score row_b = 2.001" and rc: "raw_score row_c = 1.001"
    and ra: "raw_score row_a = 2.001"
    by (simp_all add: raw_score_def row_a_def row_b_def row_c_def py_split_def py_strip_def
        py_isspace_def)
  from popularity_score_formula [OF d1 m1] have
    "map_of (compute_popularity_score [row_c, row_b]) (row_id row_b) = Some 1"
    by (simp add: rb rc Let_def)
  moreover from popularity_score_formula [OF d2 m2] have
    "map_of (compute_popularity_score [row_b, row_a]) (row_id row_b) = Some 2.001"
    by (simp add: rb ra Let_def)
  ultimately show ?thesis using d1 by blast
qed

text \<open>
  Claim C6 as stated fails: a token of whitespace only is not empty, yet it is not
  counted. The tags \<^verbatim>\<open>a; \<close> have two tokens that are not empty, and the raw score
  of the single asset (left as it is in a pool of one) counts one.
\<close>

theorem popularity_counts_blank_tokens:
  "compute_popularity_score [row_blank_tag] = [(''e1'', 1.001)] \<and>
   claimed_raw_score row_blank_tag = 2.001"
  by (simp add: compute_popularity_score_def raw_score_def claimed_raw_score_def row_blank_tag_def
      py_split_def py_strip_def py_isspace_def)

section \<open>Ranking\<close>

text \<open>For vectors that are not zero, \<open>cosine\<close> is the cosine of the angle.\<close>

lemma dot_scale: "dot (map (\<lambda>a. a / n) x) (map (\<lambda>b. b / m) y) = dot x y / (n * m)"
proof (induction x arbitrary: y)
  case Nil
  then show ?case by (simp add: dot_def)
next
  case (Cons a x)
  then show ?case
  proof (cases y)
    case Nil
    then show ?thesis by (simp add: dot_def)
  next
    case (Cons b y')
    with Cons.IH [of y'] show ?thesis
      by (simp add: dot_def add_divide_distrib)
  qed
qed

lemma cosine_formula:
  assumes "dot x x \<noteq> 0" and "dot y y \<noteq> 0"
  shows "cosine x y = dot x y / (sqrt (dot x x) * sqrt (dot y y))"
  using assms by (simp add: cosine_def normalize_l2_def Let_def dot_scale)

lemma first_row_Inr:
  "first_row idcol df k = Inr r \<Longrightarrow> r \<in> set df \<and> idcol r = k"
  by (auto simp: first_row_def find_Some_iff split: option.splits)

lemma compute_boosts_Inr:
  "compute_boosts df uc ui ids = Inr bs \<Longrightarrow>
   length bs = length ids \<and>
   (\<forall>i<length ids. \<exists>row. first_row row_id df (ids ! i) = Inr row \<and> bs ! i = boost_value uc ui row)"
proof (induction ids arbitrary: bs)
  case Nil
  then show ?case by simp
next
  case (Cons eid ids)
  from Cons.prems obtain row bs' where row: "first_row row_id df eid = Inr row"
    and rest: "compute_boosts df uc ui ids = Inr bs'"
    and bs: "bs = boost_value uc ui row # bs'"
    by (auto split: sum.splits)
  from Cons.IH [OF rest] row bs show ?case
    by (auto simp: nth_Cons split: nat.splits)
qed

lemma base_scores_Inr:
  assumes "base_scores self kind uv ids mat = Inr (scores, rsn)" and "length mat = length ids"
  shows "length scores = length ids \<and>
     rsn = (if nnz uv = 0 then ''popularity fallback'' else ''text-based similarity'') \<and>
     (\<forall>i<length ids. scores ! i =
        (if nnz uv = 0 then get_or_zero (popularity self kind) (ids ! i) else cosine uv (mat ! i)))"
proof (cases "nnz uv = 0")
  case True
  with assms show ?thesis by (auto simp: base_scores_def)
next
  case False
  with assms have "cosine_similarity uv mat = Inr scores" and "rsn = ''text-based similarity''"
    by (auto simp: base_scores_def split: sum.splits)
  then have "scores = map (\<lambda>y. cosine uv y) mat" "rsn = ''text-based similarity''"
    by (auto simp: cosine_similarity_def split: if_splits)
  with False assms(2) show ?thesis by simp
qed

lemma argsort_set: "set (argsort keys) = {0..<length keys}"
  by (simp add: argsort_def)

lemma argsort_sorted:
  "sorted_wrt (\<lambda>i j. keys ! i \<le> keys ! j) (argsort keys)"
proof -
  have "sorted (map (\<lambda>i. keys ! i) (argsort keys))"
    unfolding argsort_def by (rule sorted_sort_key)
  then show ?thesis by (simp add: sorted_map)
qed

lemma slice_to_set: "set (slice_to xs n) \<subseteq> set xs"
  by (auto simp: slice_to_def dest: in_set_takeD)

lemma slice_to_length: "0 \<le> n \<Longrightarrow> int (length (slice_to xs n)) \<le> n"
  by (simp add: slice_to_def)

lemma slice_to_sorted: "sorted_wrt P xs \<Longrightarrow> sorted_wrt P (slice_to xs n)"
  by (simp add: slice_to_def)

lemma nnz_zero_iff: "nnz v = 0 \<longleftrightarrow> list_all (\<lambda>x. x = 0) v"
  by (induction v) (auto simp: nnz_def)

text \<open>What a successful call computed.\<close>

lemma recommend_Inr:
  assumes "recommend_for_user self u kind top_n = Inr recs"
  shows "\<exists>user_vec urow scores rsn boosts.
     map_of (emb_users (r_embeddings self)) u = Some user_vec \<and>
     first_row uid (users (r_datasets self)) u = Inr urow \<and>
     base_scores self kind user_vec (map fst (emb_of (r_embeddings self) kind))
        (map snd (emb_of (r_embeddings self) kind)) = Inr (scores, rsn) \<and>
     compute_boosts (rows_of (r_datasets self) kind) (py_lower (u_city urow))
        (py_lower (interests urow)) (map fst (emb_of (r_embeddings self) kind)) = Inr boosts \<and>
     recs = map (\<lambda>idx. \<lparr>user_id = u,
                         asset_id = map fst (emb_of (r_embeddings self) kind) ! idx,
                         asset_type = butlast (kind_name kind),
                         score = map2 (+) scores boosts ! idx,
                         reason = rsn\<rparr>)
              (slice_to (argsort (map uminus (map2 (+) scores boosts))) top_n)"
  using assms
  by (auto simp: recommend_for_user_def Let_def split: option.splits sum.splits prod.splits)

lemma recommend_entry:
  assumes "recommend_for_user self u kind top_n = Inr recs" and "r \<in> set recs"
  shows "\<exists>user_vec urow row i.
     map_of (emb_users (r_embeddings self)) u = Some user_vec \<and>
     first_row uid (users (r_datasets self)) u = Inr urow \<and>
     i < length (emb_of (r_embeddings self) kind) \<and>
     first_row row_id (rows_of (r_datasets self) kind) (fst (emb_of (r_embeddings self) kind ! i))
       = Inr row \<and>
     r = \<lparr>user_id = u,
          asset_id = fst (emb_of (r_embeddings self) kind ! i),
          asset_type = butlast (kind_name kind),
          score = (if nnz user_vec = 0
                   then get_or_zero (popularity self kind) (fst (emb_of (r_embeddings self) kind ! i))
                   else cosine user_vec (snd (emb_of (r_embeddings self) kind ! i)))
                  + boost_value (py_lower (u_city urow)) (py_lower (interests urow)) row,
          reason = (if nnz user_vec = 0 then ''popularity fallback''
                    else ''text-based similarity'')\<rparr>"
proof -
  let ?ents = "emb_of (r_embeddings self) kind"
  let ?ids = "map fst ?ents" and ?mat = "map snd ?ents"
  from recommend_Inr [OF assms(1)] obtain user_vec urow scores rsn boosts where
    uv: "map_of (emb_users (r_embeddings self)) u = Some user_vec"
    and ur: "first_row uid (users (r_datasets self)) u = Inr urow"
    and bs: "base_scores self kind user_vec ?ids ?mat = Inr (scores, rsn)"
    and bo: "compute_boosts (rows_of (r_datasets self) kind) (py_lower (u_city urow))
               (py_lower (interests urow)) ?ids = Inr boosts"
    and recs: "recs = map (\<lambda>idx. \<lparr>user_id = u, asset_id = ?ids ! idx,
                         asset_type = butlast (kind_name kind),
                         score = map2 (+) scores boosts ! idx, reason = rsn\<rparr>)
              (slice_to (argsort (map uminus (map2 (+) scores boosts))) top_n)"
    by blast
  from base_scores_Inr [OF bs] have ls: "length scores = length ?ents"
    and rsn: "rsn = (if nnz user_vec = 0 then ''popularity fallback'' else ''text-based similarity'')"
    and sc: "\<forall>i<length ?ents. scores ! i =
        (if nnz user_vec = 0 then get_or_zero (popularity self kind) (?ids ! i)
         else cosine user_vec (?mat ! i))"
    by simp_all
  from compute_boosts_Inr [OF bo] have lb: "length boosts = length ?ents"
    and bv: "\<forall>i<length ?ents. \<exists>row. first_row row_id (rows_of (r_datasets self) kind) (?ids ! i) = Inr row
               \<and> boosts ! i = boost_value (py_lower (u_city urow)) (py_lower (interests urow)) row"
    by simp_all
  from assms(2) recs obtain i where
    i: "i \<in> set (slice_to (argsort (map uminus (map2 (+) scores boosts))) top_n)"
    and r: "r = \<lparr>user_id = u, asset_id = ?ids ! i, asset_type = butlast (kind_name kind),
                 score = map2 (+) scores boosts ! i, reason = rsn\<rparr>"
    by auto
  have "i \<in> set (argsort (map uminus (map2 (+) scores boosts)))"
    by (rule subsetD [OF slice_to_set i])
  then have il: "i < length ?ents"
    by (simp add: argsort_set ls lb)
  from bv il obtain row where
    row: "first_row row_id (rows_of (r_datasets self) kind) (?ids ! i) = Inr row"
    and b: "boosts ! i = boost_value (py_lower (u_city urow)) (py_lower (interests urow)) row"
    by blast
  have fin: "map2 (+) scores boosts ! i = scores ! i + boosts ! i"
    using il ls lb by simp
  from il sc have s: "scores ! i =
        (if nnz user_vec = 0 then get_or_zero (popularity self kind) (?ids ! i)
         else cosine user_vec (?mat ! i))"
    by blast
  from il have nth: "?ids ! i = fst (?ents ! i)" "?mat ! i = snd (?ents ! i)"
    by simp_all
  have r': "r = \<lparr>user_id = u,
          asset_id = fst (?ents ! i),
          asset_type = butlast (kind_name kind),
          score = (if nnz user_vec = 0
                   then get_or_zero (popularity self kind) (fst (?ents ! i))
                   else cosine user_vec (snd (?ents ! i)))
                  + boost_value (py_lower (u_city urow)) (py_lower (interests urow)) row,
          reason = (if nnz user_vec = 0 then ''popularity fallback''
                    else ''text-based similarity'')\<rparr>"
    using r by (simp only: fin s b rsn nth)
  from row have row': "first_row row_id (rows_of (r_datasets self) kind) (fst (?ents ! i)) = Inr row"
    by (simp only: nth)
  show ?thesis
    by (intro exI conjI) (rule uv, rule ur, rule il, rule row', rule r')
qed

lemma first_row_found:
  "k \<in> idcol ` set df \<Longrightarrow> \<exists>r. first_row idcol df k = Inr r"
  by (induction df) (auto simp: first_row_def)

lemma compute_boosts_returns:
  "set ids \<subseteq> row_id ` set df \<Longrightarrow> \<exists>bs. compute_boosts df uc ui ids = Inr bs"
proof (induction ids)
  case Nil
  then show ?case by simp
next
  case (Cons eid ids)
  then obtain row bs where "first_row row_id df eid = Inr row"
    and "compute_boosts df uc ui ids = Inr bs"
    using first_row_found [of eid row_id df] by auto
  then show ?case by simp
qed

text \<open>A call returns when the user has a vector and a row, every candidate has a row,
  and, unless the user's vector is zero, there is a candidate and the vectors have the
  dimension of the user's, which is not zero.\<close>

lemma recommend_returns:
  assumes "map_of (emb_users (r_embeddings self)) u = Some user_vec"
    and "u \<in> uid ` set (users (r_datasets self))"
    and "fst ` set (emb_of (r_embeddings self) kind) \<subseteq> row_id ` set (rows_of (r_datasets self) kind)"
    and "nnz user_vec = 0 \<or>
         (emb_of (r_embeddings self) kind \<noteq> [] \<and> user_vec \<noteq> [] \<and>
          (\<forall>v\<in>snd ` set (emb_of (r_embeddings self) kind). length v = length user_vec))"
  shows "\<exists>recs. recommend_for_user self u kind top_n = Inr recs"
proof -
  let ?ents = "emb_of (r_embeddings self) kind"
  have "\<exists>scores rsn.
          base_scores self kind user_vec (map fst ?ents) (map snd ?ents) = Inr (scores, rsn)"
  proof (cases "nnz user_vec = 0")
    case True
    then show ?thesis by (simp add: base_scores_def)
  next
    case False
    with assms(4) have "cosine_similarity user_vec (map snd ?ents) =
        Inr (map (\<lambda>y. cosine user_vec y) (map snd ?ents))"
      by (auto simp: cosine_similarity_def list_ex_iff)
    with False show ?thesis by (simp add: base_scores_def)
  qed
  then obtain scores rsn where
    bs: "base_scores self kind user_vec (map fst ?ents) (map snd ?ents) = Inr (scores, rsn)"
    by blast
  from first_row_found [OF assms(2)] obtain urow where
    ur: "first_row uid (users (r_datasets self)) u = Inr urow"
    by blast
  from assms(3) have "set (map fst ?ents) \<subseteq> row_id ` set (rows_of (r_datasets self) kind)"
    by simp
  from compute_boosts_returns [OF this] obtain boosts where
    "compute_boosts (rows_of (r_datasets self) kind) (py_lower (u_city urow))
       (py_lower (interests urow)) (map fst ?ents) = Inr boosts"
    by blast
  with assms(1) bs ur show ?thesis
    by (simp add: recommend_for_user_def Let_def)
qed

lemma popularity_has_row:
  assumes "first_row row_id df eid = Inr row"
  shows "\<exists>p. map_of (compute_popularity_score df) eid = Some p
             \<and> get_or_zero (compute_popularity_score df) eid = p"
proof -
  from first_row_Inr [OF assms] have "eid \<in> row_id ` set df" by auto
  then have "eid \<in> fst ` set (compute_popularity_score df)"
    by (simp add: popularity_keys)
  then obtain p where "map_of (compute_popularity_score df) eid = Some p"
    by (metis map_of_eq_None_iff not_Some_eq)
  then show ?thesis by (simp add: get_or_zero_def)
qed

lemma boost_value_rules:
  "boost_value uc ui row =
     (if uc \<noteq> [] \<and> uc = py_lower (city row) then 0.1 else 0)
     + (if list_ex (\<lambda>k. sublist k ui) (py_split_ws (py_lower (category row))) then 0.05 else 0)
     + (if list_ex (\<lambda>t. sublist (py_strip t) ui) (py_split CHR '';'' (py_lower (tags row)))
        then 0.03 else 0)"
  by (simp add: boost_value_sum city_test_def category_test_iff tag_test_def)

lemmas eval_defs = Let_def ds0_def emb0_def urow1_def urow2_def row_a_def row_b_def row_c_def
  Recommender_init_def recommend_for_user_def base_scores_def nnz_def get_or_zero_def
  compute_popularity_score_def raw_score_def py_split_def py_strip_def py_isspace_def
  first_row_def boost_value_def city_test_def category_test_def tag_test_def py_lower_def
  py_lower_char_def py_split_ws_def sublist_code(3) argsort_def slice_to_def
  cosine_similarity_def cosine_def normalize_l2_def dot_def rec_of_def

lemma run_u1_top2:
  "recommend_for_user (Recommender_init emb0 ds0) ''u1'' Events 2 =
     Inr [rec_of ''u1'' ''b'' 1.18 ''text-based similarity'',
          rec_of ''u1'' ''a'' 1.18 ''text-based similarity'']"
  by (simp add: eval_defs)

lemma run_u1_minus1:
  "recommend_for_user (Recommender_init emb0 ds0) ''u1'' Events (-1) =
     Inr [rec_of ''u1'' ''b'' 1.18 ''text-based similarity'',
          rec_of ''u1'' ''a'' 1.18 ''text-based similarity'']"
  by (simp add: eval_defs)

lemma run_u1_all:
  "recommend_for_user (Recommender_init emb0 ds0) ''u1'' Events 10 =
     Inr [rec_of ''u1'' ''b'' 1.18 ''text-based similarity'',
          rec_of ''u1'' ''a'' 1.18 ''text-based similarity'',
          rec_of ''u1'' ''c'' 0 ''text-based similarity'']"
  by (simp add: eval_defs)

lemma run_u2_top2:
  "recommend_for_user (Recommender_init emb0 ds0) ''u2'' Events 2 =
     Inr [rec_of ''u2'' ''b'' 1 ''popularity fallback'',
          rec_of ''u2'' ''a'' 1 ''popularity fallback'']"
  by (simp add: eval_defs)

lemma run_u1_swapped:
  "recommend_for_user (Recommender_init emb0_swapped ds0) ''u1'' Events 2 =
     Inr [rec_of ''u1'' ''a'' 1.18 ''text-based similarity'',
          rec_of ''u1'' ''b'' 1.18 ''text-based similarity'']"
  by (simp add: eval_defs emb0_swapped_def)

lemma lookup_u1: "map_of (emb_users emb0) ''u1'' = Some [1, 0]"
  and lookup_u2: "map_of (emb_users emb0) ''u2'' = Some [0, 0]"
  by (simp_all add: emb0_def)

lemma lookup_urow1: "first_row uid (users ds0) ''u1'' = Inr urow1"
  and lookup_urow2: "first_row uid (users ds0) ''u2'' = Inr urow2"
  by (simp_all add: first_row_def ds0_def urow1_def urow2_def)

lemma lookup_row_b: "first_row row_id (rows_of ds0 Events) (asset_id (rec_of u ''b'' s rsn)) = Inr row_b"
  by (simp add: first_row_def ds0_def rec_of_def row_c_def row_b_def)

lemma boost_u1_b: "boost_value (py_lower (u_city urow1)) (py_lower (interests urow1)) row_b = 0.18"
  by (simp add: eval_defs)

lemma boost_u2_b: "boost_value (py_lower (u_city urow2)) (py_lower (interests urow2)) row_b = 0"
  by (simp add: eval_defs)

text \<open>
  Claim C1, as the code has it. For a limit \<open>top_n\<close> that is not negative, a call
  that returns gives at most \<open>top_n\<close> recommendations, in order of non-increasing
  score. The order among equal scores is the one the sort leaves, which nothing ties to
  the asset ids.
\<close>

theorem recommend_sorted:
  assumes "recommend_for_user self u kind top_n = Inr recs" and "0 \<le> top_n"
  shows "int (length recs) \<le> top_n \<and> sorted_wrt (\<lambda>a b. score a \<ge> score b) recs"
proof -
  from recommend_Inr [OF assms(1)] obtain scores rsn boosts where
    recs: "recs = map (\<lambda>idx. \<lparr>user_id = u,
                         asset_id = map fst (emb_of (r_embeddings self) kind) ! idx,
                         asset_type = butlast (kind_name kind),
                         score = map2 (+) scores boosts ! idx, reason = rsn\<rparr>)
              (slice_to (argsort (map uminus (map2 (+) scores boosts))) top_n)"
    by blast
  let ?fs = "map2 (+) scores boosts"
  let ?order = "argsort (map uminus ?fs)"
  have len: "int (length recs) \<le> top_n"
    using slice_to_length [OF assms(2)] by (simp add: recs)
  have "sorted_wrt (\<lambda>i j. map uminus ?fs ! i \<le> map uminus ?fs ! j) ?order"
    by (rule argsort_sorted)
  then have "sorted_wrt (\<lambda>i j. ?fs ! j \<le> ?fs ! i) ?order"
  proof (rule sorted_wrt_mono_rel [rotated])
    fix i j
    assume "i \<in> set ?order" "j \<in> set ?order"
      and le: "map uminus ?fs ! i \<le> map uminus ?fs ! j"
    then have "i < length ?fs" "j < length ?fs"
      by (simp_all add: argsort_set)
    with le show "?fs ! j \<le> ?fs ! i" by simp
  qed
  then have "sorted_wrt (\<lambda>i j. ?fs ! j \<le> ?fs ! i) (slice_to ?order top_n)"
    by (rule slice_to_sorted)
  then have "sorted_wrt (\<lambda>a b. score a \<ge> score b) recs"
    by (simp add: recs sorted_wrt_map)
  with len show ?thesis by simp
qed

theorem recommend_sorted_witness:
  "recommend_for_user (Recommender_init emb0 ds0) ''u1'' Events 10 =
     Inr [rec_of ''u1'' ''b'' 1.18 ''text-based similarity'',
          rec_of ''u1'' ''a'' 1.18 ''text-based similarity'',
          rec_of ''u1'' ''c'' 0 ''text-based similarity''] \<and>
   int (length [rec_of ''u1'' ''b'' 1.18 ''text-based similarity'',
          rec_of ''u1'' ''a'' 1.18 ''text-based similarity'',
          rec_of ''u1'' ''c'' 0 ''text-based similarity'']) \<le> 10 \<and>
   sorted_wrt (\<lambda>a b. score a \<ge> score b)
     [rec_of ''u1'' ''b'' 1.18 ''text-based similarity'',
      rec_of ''u1'' ''a'' 1.18 ''text-based similarity'',
      rec_of ''u1'' ''c'' 0 ''text-based similarity'']"
proof -
  have n: "(0::int) \<le> 10" by simp
  from recommend_sorted [OF run_u1_all n] run_u1_all show ?thesis by blast
qed

text \<open>
  Claim C1 as stated fails. The events \<open>b\<close> and \<open>a\<close> have one score for user
  \<open>u1\<close>, and \<open>b\<close>, which stands first in the embedding, is ranked before \<open>a\<close>,
  the smaller id; with the two in the other order in the embedding, \<open>a\<close> is ranked
  first: the order of a tie follows the positions, not the ids. With the limit \<open>-1\<close>
  the slice drops the last of the three candidates and two recommendations are returned.
\<close>

theorem rank_ties_keep_embedding_order:
  "recommend_for_user (Recommender_init emb0 ds0) ''u1'' Events 2 =
     Inr [rec_of ''u1'' ''b'' 1.18 ''text-based similarity'',
          rec_of ''u1'' ''a'' 1.18 ''text-based similarity''] \<and>
   (''a'' :: string) < ''b'' \<and>
   recommend_for_user (Recommender_init emb0_swapped ds0) ''u1'' Events 2 =
     Inr [rec_of ''u1'' ''a'' 1.18 ''text-based similarity'',
          rec_of ''u1'' ''b'' 1.18 ''text-based similarity''] \<and>
   recommend_for_user (Recommender_init emb0 ds0) ''u1'' Events (-1) =
     Inr [rec_of ''u1'' ''b'' 1.18 ''text-based similarity'',
          rec_of ''u1'' ''a'' 1.18 ''text-based similarity''] \<and>
   \<not> int (length [rec_of ''u1'' ''b'' 1.18 ''text-based similarity'',
          rec_of ''u1'' ''a'' 1.18 ''text-based similarity'']) \<le> -1"
  using run_u1_top2 run_u1_swapped run_u1_minus1 by simp

text \<open>
  Claim C4. For a user whose vector is zero every recommendation has the reason
  \<^verbatim>\<open>popularity fallback\<close>, and its score less its boost is the popularity score of
  the asset; for a user whose vector is not zero the reason is
  \<^verbatim>\<open>text-based similarity\<close> and the score less the boost is the cosine similarity of
  the user's vector and the vector of a candidate with that id.
\<close>

theorem rank_base_score:
  assumes "recommend_for_user (Recommender_init emb ds) u kind top_n = Inr recs"
    and "r \<in> set recs"
    and "map_of (emb_users emb) u = Some user_vec"
    and "first_row uid (users ds) u = Inr urow"
    and "first_row row_id (rows_of ds kind) (asset_id r) = Inr row"
  shows "if list_all (\<lambda>x. x = 0) user_vec
     then reason r = ''popularity fallback'' \<and>
          map_of (compute_popularity_score (rows_of ds kind)) (asset_id r) =
            Some (score r - boost_value (py_lower (u_city urow)) (py_lower (interests urow)) row)
     else reason r = ''text-based similarity'' \<and>
          (\<exists>i. i < length (emb_of emb kind) \<and> fst (emb_of emb kind ! i) = asset_id r \<and>
               score r - boost_value (py_lower (u_city urow)) (py_lower (interests urow)) row =
                 cosine user_vec (snd (emb_of emb kind ! i)))"
proof -
  let ?self = "Recommender_init emb ds"
  have e: "r_embeddings ?self = emb" and d: "r_datasets ?self = ds"
    and p: "popularity ?self kind = compute_popularity_score (rows_of ds kind)"
    by (simp_all add: Recommender_init_def)
  from recommend_entry [OF assms(1,2)] obtain user_vec' urow' row' i where
    "map_of (emb_users emb) u = Some user_vec'"
    and "first_row uid (users ds) u = Inr urow'"
    and i: "i < length (emb_of emb kind)"
    and row': "first_row row_id (rows_of ds kind) (fst (emb_of emb kind ! i)) = Inr row'"
    and r: "r = \<lparr>user_id = u,
          asset_id = fst (emb_of emb kind ! i),
          asset_type = butlast (kind_name kind),
          score = (if nnz user_vec' = 0
                   then get_or_zero (compute_popularity_score (rows_of ds kind))
                          (fst (emb_of emb kind ! i))
                   else cosine user_vec' (snd (emb_of emb kind ! i)))
                  + boost_value (py_lower (u_city urow')) (py_lower (interests urow')) row',
          reason = (if nnz user_vec' = 0 then ''popularity fallback''
                    else ''text-based similarity'')\<rparr>"
    unfolding e d p by blast
  with assms(3,4) have same: "user_vec' = user_vec" "urow' = urow" by simp_all
  from r have aid: "asset_id r = fst (emb_of emb kind ! i)" by simp
  with row' assms(5) have row: "row' = row" by simp
  let ?b = "boost_value (py_lower (u_city urow)) (py_lower (interests urow)) row"
  show ?thesis
  proof (cases "nnz user_vec = 0")
    case True
    from popularity_has_row [OF assms(5)] obtain q where
      q: "map_of (compute_popularity_score (rows_of ds kind)) (asset_id r) = Some q"
      "get_or_zero (compute_popularity_score (rows_of ds kind)) (asset_id r) = q"
      by blast
    from r True have "reason r = ''popularity fallback''"
      and "score r = get_or_zero (compute_popularity_score (rows_of ds kind)) (asset_id r) + ?b"
      by (simp_all add: same row)
    with q True show ?thesis by (simp add: nnz_zero_iff)
  next
    case False
    from r False have "reason r = ''text-based similarity''"
      and "score r - ?b = cosine user_vec (snd (emb_of emb kind ! i))"
      by (simp_all add: same row)
    with i aid False show ?thesis by (auto simp: nnz_zero_iff)
  qed
qed

theorem rank_base_score_witness:
  "recommend_for_user (Recommender_init emb0 ds0) ''u2'' Events 2 =
     Inr [rec_of ''u2'' ''b'' 1 ''popularity fallback'',
          rec_of ''u2'' ''a'' 1 ''popularity fallback''] \<and>
   map_of (compute_popularity_score (rows_of ds0 Events)) ''b'' = Some 1 \<and>
   recommend_for_user (Recommender_init emb0 ds0) ''u1'' Events 2 =
     Inr [rec_of ''u1'' ''b'' 1.18 ''text-based similarity'',
          rec_of ''u1'' ''a'' 1.18 ''text-based similarity''] \<and>
   (\<exists>i. i < length (emb_of emb0 Events) \<and> fst (emb_of emb0 Events ! i) = ''b'' \<and>
        cosine [1, 0] (snd (emb_of emb0 Events ! i)) = 1)"
proof -
  have m2: "rec_of ''u2'' ''b'' 1 ''popularity fallback'' \<in>
              set [rec_of ''u2'' ''b'' 1 ''popularity fallback'',
                   rec_of ''u2'' ''a'' 1 ''popularity fallback'']"
    by simp
  have m1: "rec_of ''u1'' ''b'' 1.18 ''text-based similarity'' \<in>
              set [rec_of ''u1'' ''b'' 1.18 ''text-based similarity'',
                   rec_of ''u1'' ''a'' 1.18 ''text-based similarity'']"
    by simp
  have cold: "map_of (compute_popularity_score (rows_of ds0 Events)) ''b'' = Some 1"
    using rank_base_score [OF run_u2_top2 m2 lookup_u2 lookup_urow2 lookup_row_b]
    by (simp add: boost_u2_b rec_of_def)
  have warm: "\<exists>i. i < length (emb_of emb0 Events) \<and> fst (emb_of emb0 Events ! i) = ''b'' \<and>
        cosine [1, 0] (snd (emb_of emb0 Events ! i)) = 1"
    using rank_base_score [OF run_u1_top2 m1 lookup_u1 lookup_urow1 lookup_row_b]
    by (simp add: boost_u1_b rec_of_def)
  from cold warm run_u1_top2 run_u2_top2 show ?thesis by blast
qed

text \<open>
  Claim C5, as the code has it. The score of a recommendation is its base score, of
  whichever branch, plus 0.10 when the user's city is not empty and equals the
  candidate's, plus 0.05 when a whitespace token of the category occurs in the user's
  interests, plus 0.03 when a trimmed \<open>;\<close>-delimited tag token occurs in them (all
  attributes lower-cased); so with all three rules it is the base score plus
  0.10 + 0.05 + 0.03.
\<close>

theorem rank_score_additive:
  assumes "recommend_for_user self u kind top_n = Inr recs"
    and "r \<in> set recs"
    and "map_of (emb_users (r_embeddings self)) u = Some user_vec"
    and "first_row uid (users (r_datasets self)) u = Inr urow"
    and "first_row row_id (rows_of (r_datasets self) kind) (asset_id r) = Inr row"
  shows "\<exists>i. i < length (emb_of (r_embeddings self) kind) \<and>
     fst (emb_of (r_embeddings self) kind ! i) = asset_id r \<and>
     score r =
       (if nnz user_vec = 0 then get_or_zero (popularity self kind) (asset_id r)
        else cosine user_vec (snd (emb_of (r_embeddings self) kind ! i)))
       + (if py_lower (u_city urow) \<noteq> [] \<and> py_lower (u_city urow) = py_lower (city row)
          then 0.1 else 0)
       + (if list_ex (\<lambda>k. sublist k (py_lower (interests urow)))
               (py_split_ws (py_lower (category row)))
          then 0.05 else 0)
       + (if list_ex (\<lambda>t. sublist (py_strip t) (py_lower (interests urow)))
               (py_split CHR '';'' (py_lower (tags row)))
          then 0.03 else 0)"
proof -
  let ?ents = "emb_of (r_embeddings self) kind"
  from recommend_entry [OF assms(1,2)] obtain user_vec' urow' row' i where
    "map_of (emb_users (r_embeddings self)) u = Some user_vec'"
    and "first_row uid (users (r_datasets self)) u = Inr urow'"
    and i: "i < length ?ents"
    and row': "first_row row_id (rows_of (r_datasets self) kind) (fst (?ents ! i)) = Inr row'"
    and r: "r = \<lparr>user_id = u,
          asset_id = fst (?ents ! i),
          asset_type = butlast (kind_name kind),
          score = (if nnz user_vec' = 0
                   then get_or_zero (popularity self kind) (fst (?ents ! i))
                   else cosine user_vec' (snd (?ents ! i)))
                  + boost_value (py_lower (u_city urow')) (py_lower (interests urow')) row',
          reason = (if nnz user_vec' = 0 then ''popularity fallback''
                    else ''text-based similarity'')\<rparr>"
    by blast
  with assms(3,4) have same: "user_vec' = user_vec" "urow' = urow" by simp_all
  from r have aid: "fst (?ents ! i) = asset_id r" by simp
  with row' assms(5) have row: "row' = row" by simp
  from r have "score r =
       (if nnz user_vec = 0 then get_or_zero (popularity self kind) (asset_id r)
        else cosine user_vec (snd (?ents ! i)))
       + boost_value (py_lower (u_city urow)) (py_lower (interests urow)) row"
    by (simp add: same row)
  then have "score r =
       (if nnz user_vec = 0 then get_or_zero (popularity self kind) (asset_id r)
        else cosine user_vec (snd (?ents ! i)))
       + (if py_lower (u_city urow) \<noteq> [] \<and> py_lower (u_city urow) = py_lower (city row)
          then 0.1 else 0)
       + (if list_ex (\<lambda>k. sublist k (py_lower (interests urow)))
               (py_split_ws (py_lower (category row)))
          then 0.05 else 0)
       + (if list_ex (\<lambda>t. sublist (py_strip t) (py_lower (interests urow)))
               (py_split CHR '';'' (py_lower (tags row)))
          then 0.03 else 0)"
    by (simp only: boost_value_rules add.assoc)
  with i aid show ?thesis by blast
qed

theorem rank_score_additive_witness:
  "recommend_for_user (Recommender_init emb0 ds0) ''u1'' Events 2 =
     Inr [rec_of ''u1'' ''b'' 1.18 ''text-based similarity'',
          rec_of ''u1'' ''a'' 1.18 ''text-based similarity''] \<and>
   (\<exists>i. i < length (emb_of emb0 Events) \<and> fst (emb_of emb0 Events ! i) = ''b'' \<and>
        score (rec_of ''u1'' ''b'' 1.18 ''text-based similarity'') =
          cosine [1, 0] (snd (emb_of emb0 Events ! i)) + 0.1 + 0.05 + 0.03)"
proof -
  let ?self = "Recommender_init emb0 ds0"
  have e: "r_embeddings ?self = emb0" and d: "r_datasets ?self = ds0"
    by (simp_all add: Recommender_init_def)
  have m1: "rec_of ''u1'' ''b'' 1.18 ''text-based similarity'' \<in>
              set [rec_of ''u1'' ''b'' 1.18 ''text-based similarity'',
                   rec_of ''u1'' ''a'' 1.18 ''text-based similarity'']"
    by simp
  have c: "py_lower (u_city urow1) = ''berlin''" "py_lower (city row_b) = ''berlin''"
    by (simp_all add: urow1_def row_b_def py_lower_def py_lower_char_def)
  have k: "list_ex (\<lambda>k. sublist k (py_lower (interests urow1)))
             (py_split_ws (py_lower (category row_b)))"
    by (simp add: urow1_def row_b_def py_lower_def py_lower_char_def py_split_ws_def
        py_isspace_def sublist_code(3))
  have t: "list_ex (\<lambda>t. sublist (py_strip t) (py_lower (interests urow1)))
             (py_split CHR '';'' (py_lower (tags row_b)))"
    by (simp add: urow1_def row_b_def py_lower_def py_lower_char_def py_split_def py_strip_def
        py_isspace_def sublist_code(3))
  have nz: "nnz [1, 0] \<noteq> 0" by (simp add: nnz_def)
  have "\<exists>i. i < length (emb_of emb0 Events) \<and> fst (emb_of emb0 Events ! i) = ''b'' \<and>
        score (rec_of ''u1'' ''b'' 1.18 ''text-based similarity'') =
          cosine [1, 0] (snd (emb_of emb0 Events ! i)) + 0.1 + 0.05 + 0.03"
    using rank_score_additive [of ?self, unfolded e d,
            OF run_u1_top2 m1 lookup_u1 lookup_urow1 lookup_row_b] c k t nz
    by (simp add: rec_of_def)
  with run_u1_top2 show ?thesis by blast
qed

text \<open>
  Claim C5 as stated fails: a user and a candidate that both have the empty city match
  exactly, and the city rule adds nothing.
\<close>

theorem city_rule_needs_user_city:
  "boost_value [] [] row_no_city = 0 \<and> claimed_boost [] [] row_no_city = 0.1"
  by (simp add: boost_value_def claimed_boost_def row_no_city_def city_test_def category_test_def
      tag_test_def py_lower_def py_lower_char_def py_split_def py_strip_def py_split_ws_def
      py_isspace_def)

end
